theory Spec2Isabelle
  imports Main "HOL-Library.Word" "HOL-Library.Sublist" "HOL-Library.Log_Nat"
begin

section \<open>JavaScript values used by convex/siteAnalyzer.ts\<close>

text \<open>
  A JavaScript string is a sequence of 16-bit code units. String literals of the source
  are ASCII, written here as \<open>js ''...''\<close>.
\<close>

type_synonym char16 = "16 word"
type_synonym jsstring = "char16 list"

definition js :: "string \<Rightarrow> jsstring" where
  "js s = map (\<lambda>c. of_nat (of_char c)) s"

text \<open>
  \<open>Record<string, string>\<close>: an object used as a dictionary. Reading a key that is not
  there gives \<open>undefined\<close>, here \<open>None\<close>.
\<close>

type_synonym headers = "jsstring \<rightharpoonup> jsstring"

text \<open>
  Truthiness of \<open>headers[k]\<close>: \<open>undefined\<close> and the empty string are falsy, every
  other string is truthy.
\<close>

definition truthy :: "jsstring option \<Rightarrow> bool" where
  "truthy v = (case v of None \<Rightarrow> False | Some s \<Rightarrow> s \<noteq> [])"

text \<open>The shape returned by \<open>analyzeSecurityHeaders\<close> and \<open>analyzeSEO\<close>.\<close>

record score_result =
  score :: int
  issues :: "jsstring list"
  recommendations :: "jsstring list"

section \<open>analyzeSecurityHeaders\<close>

definition securityHeaders :: "jsstring list" where
  "securityHeaders =
     [js ''strict-transport-security'',
      js ''content-security-policy'',
      js ''x-frame-options'',
      js ''x-content-type-options'',
      js ''referrer-policy'',
      js ''permissions-policy'']"

definition missing_issue :: "jsstring \<Rightarrow> jsstring" where
  "missing_issue header = js ''Missing '' @ header @ js '' header''"

definition missing_recommendation :: "jsstring \<Rightarrow> jsstring" where
  "missing_recommendation header = js ''Add '' @ header @ js '' header for better security''"

definition x_powered_by :: jsstring where
  "x_powered_by = js ''x-powered-by''"

definition powered_issue :: jsstring where
  "powered_issue = js ''X-Powered-By header exposes server information''"

definition powered_recommendation :: jsstring where
  "powered_recommendation = js ''Remove X-Powered-By header to hide server details''"

text \<open>The body of the \<open>forEach\<close> callback: one security header name against the map.\<close>

definition check_header :: "headers \<Rightarrow> jsstring \<Rightarrow> score_result \<Rightarrow> score_result" where
  "check_header hs header st =
     (if \<not> truthy (hs header)
      then st\<lparr>score := score st - 15,
              issues := issues st @ [missing_issue header],
              recommendations := recommendations st @ [missing_recommendation header]\<rparr>
      else st)"

definition check_powered :: "headers \<Rightarrow> score_result \<Rightarrow> score_result" where
  "check_powered hs st =
     (if truthy (hs x_powered_by)
      then st\<lparr>score := score st - 10,
              issues := issues st @ [powered_issue],
              recommendations := recommendations st @ [powered_recommendation]\<rparr>
      else st)"

definition initial_result :: score_result where
  "initial_result = \<lparr>score = 100, issues = [], recommendations = []\<rparr>"

definition analyzeSecurityHeaders :: "headers \<Rightarrow> score_result" where
  "analyzeSecurityHeaders hs =
     (let st = check_powered hs (fold (check_header hs) securityHeaders initial_result)
      in st\<lparr>score := max 0 (score st)\<rparr>)"

text \<open>The security headers that the scorer counts as missing, in check order.\<close>

definition missing_headers :: "headers \<Rightarrow> jsstring list" where
  "missing_headers hs = filter (\<lambda>h. \<not> truthy (hs h)) securityHeaders"

text \<open>
  Case-insensitive equality of header names as the specification words it (ASCII case
  folding). The source never folds case; this is used only to state where the
  specification's wording and the source part.
\<close>

definition ascii_lower :: "char16 \<Rightarrow> char16" where
  "ascii_lower c = (if 65 \<le> c \<and> c \<le> 90 then c + 32 else c)"

definition spec_ci_equal :: "jsstring \<Rightarrow> jsstring \<Rightarrow> bool" where
  "spec_ci_equal a b = (map ascii_lower a = map ascii_lower b)"

section \<open>Regular expressions and string methods\<close>

text \<open>
  The regular expressions of the source are sequences of: a character, a character class,
  a greedy \<open>*\<close> or \<open>+\<close> over a character or class, and an alternation of literal
  words. Capture groups do not change what is matched and are left out.
\<close>

datatype atom = Lit char16 | Cls "char16 list" | NCls "char16 list"

datatype item = One atom | Star atom | Plus atom | Alts "jsstring list"

type_synonym regex = "item list"

text \<open>
  Character comparison under the \<open>i\<close> flag (no \<open>u\<close> flag) goes through Canonicalize:
  upper-casing of the single code unit. For a code unit from 128 on, Canonicalize never
  returns a code unit below 128, and every character written in the patterns of the
  source is below 128, so only the ASCII letters are folded here.
\<close>

definition canonicalize :: "bool \<Rightarrow> char16 \<Rightarrow> char16" where
  "canonicalize ignoreCase c = (if ignoreCase \<and> 97 \<le> c \<and> c \<le> 122 then c - 32 else c)"

fun atom_ok :: "bool \<Rightarrow> atom \<Rightarrow> char16 \<Rightarrow> bool" where
  "atom_ok ic (Lit p) c = (canonicalize ic p = canonicalize ic c)"
| "atom_ok ic (Cls ms) c = list_ex (\<lambda>m. canonicalize ic m = canonicalize ic c) ms"
| "atom_ok ic (NCls ms) c = (\<not> list_ex (\<lambda>m. canonicalize ic m = canonicalize ic c) ms)"

text \<open>What is left of the input after a literal word, if the input starts with it.\<close>

fun lit_rest :: "bool \<Rightarrow> jsstring \<Rightarrow> jsstring \<Rightarrow> jsstring option" where
  "lit_rest ic [] s = Some s"
| "lit_rest ic (p # ps) [] = None"
| "lit_rest ic (p # ps) (c # cs) =
     (if canonicalize ic p = canonicalize ic c then lit_rest ic ps cs else None)"

text \<open>
  The inputs left after a greedy repetition, in backtracking order: the longest run
  first, then one character fewer, down to none (\<open>*\<close>) or one (\<open>+\<close>).
\<close>

fun star_rests :: "(char16 \<Rightarrow> bool) \<Rightarrow> jsstring \<Rightarrow> jsstring list" where
  "star_rests p [] = [[]]"
| "star_rests p (c # cs) = (if p c then star_rests p cs @ [c # cs] else [c # cs])"

fun plus_rests :: "(char16 \<Rightarrow> bool) \<Rightarrow> jsstring \<Rightarrow> jsstring list" where
  "plus_rests p [] = []"
| "plus_rests p (c # cs) = (if p c then star_rests p cs else [])"

text \<open>
  Matching a pattern at the start of the input: every way the backtracking matcher can
  succeed, as the input left over, in the order the matcher tries them.
\<close>

fun match_items :: "bool \<Rightarrow> regex \<Rightarrow> jsstring \<Rightarrow> jsstring list" where
  "match_items ic [] s = [s]"
| "match_items ic (One a # r) s =
     (case s of [] \<Rightarrow> [] | c # cs \<Rightarrow> if atom_ok ic a c then match_items ic r cs else [])"
| "match_items ic (Star a # r) s = concat (map (match_items ic r) (star_rests (atom_ok ic a) s))"
| "match_items ic (Plus a # r) s = concat (map (match_items ic r) (plus_rests (atom_ok ic a) s))"
| "match_items ic (Alts ws # r) s =
     concat (map (\<lambda>w. case lit_rest ic w s of None \<Rightarrow> [] | Some t \<Rightarrow> match_items ic r t) ws)"

text \<open>The text matched at the start of the input: the first success of the matcher.\<close>

definition match_at :: "bool \<Rightarrow> regex \<Rightarrow> jsstring \<Rightarrow> jsstring option" where
  "match_at ic r s =
     (case match_items ic r s of [] \<Rightarrow> None | t # _ \<Rightarrow> Some (take (length s - length t) s))"

text \<open>
  \<open>s.match(re)\<close> without the \<open>g\<close> flag: the match at the leftmost position that has
  one, \<open>null\<close> (here \<open>None\<close>) when no position has.
\<close>

fun regex_exec :: "bool \<Rightarrow> regex \<Rightarrow> jsstring \<Rightarrow> jsstring option" where
  "regex_exec ic r [] = match_at ic r []"
| "regex_exec ic r (c # cs) =
     (case match_at ic r (c # cs) of Some m \<Rightarrow> Some m | None \<Rightarrow> regex_exec ic r cs)"

text \<open>
  \<open>s.match(re) || []\<close> with the \<open>g\<close> flag: all matches from left to right, each search
  starting where the previous match ended (one further after an empty match).
\<close>

fun match_all :: "bool \<Rightarrow> regex \<Rightarrow> jsstring \<Rightarrow> jsstring list" where
  "match_all ic r [] = (case match_at ic r [] of None \<Rightarrow> [] | Some m \<Rightarrow> [m])"
| "match_all ic r (c # cs) =
     (case match_at ic r (c # cs) of
        None \<Rightarrow> match_all ic r cs
      | Some m \<Rightarrow> m # match_all ic r (drop (length m - 1) cs))"

text \<open>\<open>s.includes(needle)\<close>.\<close>

fun str_includes :: "jsstring \<Rightarrow> jsstring \<Rightarrow> bool" where
  "str_includes [] needle = (needle = [])"
| "str_includes (c # cs) needle = (prefix needle (c # cs) \<or> str_includes cs needle)"

text \<open>A non-negative integer in a template literal: its decimal digits.\<close>

function decimal :: "nat \<Rightarrow> jsstring" where
  "decimal n = (if n < 10 then [of_nat (48 + n)] else decimal (n div 10) @ [of_nat (48 + n mod 10)])"
  by pat_completeness auto
termination
  by (relation "measure id") auto

declare decimal.simps [simp del]

definition lits :: "string \<Rightarrow> regex" where
  "lits s = map (\<lambda>c. One (Lit c)) (js s)"

definition chr_lt :: char16 where "chr_lt = 60"
definition chr_gt :: char16 where "chr_gt = 62"
definition chr_dquote :: char16 where "chr_dquote = 34"
definition chr_squote :: char16 where "chr_squote = 39"

section \<open>analyzeSEO\<close>

text \<open>\<open>/<title[^>]*>([^<]+)<\/title>/i\<close>\<close>

definition title_re :: regex where
  "title_re = lits ''<title'' @ [Star (NCls [chr_gt]), One (Lit chr_gt), Plus (NCls [chr_lt])]
                @ lits ''</title>''"

text \<open>\<open>/<meta[^>]*name=["']description["']/i\<close>\<close>

definition description_re :: regex where
  "description_re = lits ''<meta'' @ [Star (NCls [chr_gt])] @ lits ''name=''
                      @ [One (Cls [chr_dquote, chr_squote])] @ lits ''description''
                      @ [One (Cls [chr_dquote, chr_squote])]"

text \<open>\<open>/<h1[^>]*>/i\<close>\<close>

definition h1_re :: regex where
  "h1_re = lits ''<h1'' @ [Star (NCls [chr_gt]), One (Lit chr_gt)]"

text \<open>\<open>/<meta[^>]*name=["']viewport["']/i\<close>\<close>

definition viewport_re :: regex where
  "viewport_re = lits ''<meta'' @ [Star (NCls [chr_gt])] @ lits ''name=''
                   @ [One (Cls [chr_dquote, chr_squote])] @ lits ''viewport''
                   @ [One (Cls [chr_dquote, chr_squote])]"

text \<open>\<open>/<img[^>]*>/g\<close> (no \<open>i\<close> flag)\<close>

definition img_re :: regex where
  "img_re = lits ''<img'' @ [Star (NCls [chr_gt]), One (Lit chr_gt)]"

text \<open>A check of the form \<open>if (!html.match(re)) { score -= p; push; push }\<close>.\<close>

definition check_missing ::
  "regex \<Rightarrow> int \<Rightarrow> jsstring \<Rightarrow> jsstring \<Rightarrow> jsstring \<Rightarrow> score_result \<Rightarrow> score_result" where
  "check_missing re penalty issue recommendation html st =
     (if regex_exec True re html = None
      then st\<lparr>score := score st - penalty,
              issues := issues st @ [issue],
              recommendations := recommendations st @ [recommendation]\<rparr>
      else st)"

definition check_title :: "jsstring \<Rightarrow> score_result \<Rightarrow> score_result" where
  "check_title = check_missing title_re 20 (js ''Missing page title'')
                   (js ''Add a descriptive page title'')"

definition check_description :: "jsstring \<Rightarrow> score_result \<Rightarrow> score_result" where
  "check_description = check_missing description_re 15 (js ''Missing meta description'')
                         (js ''Add a meta description for better search results'')"

definition check_h1 :: "jsstring \<Rightarrow> score_result \<Rightarrow> score_result" where
  "check_h1 = check_missing h1_re 10 (js ''Missing H1 tag'')
                (js ''Add an H1 tag for better content structure'')"

definition check_viewport :: "jsstring \<Rightarrow> score_result \<Rightarrow> score_result" where
  "check_viewport = check_missing viewport_re 15 (js ''Missing viewport meta tag'')
                      (js ''Add viewport meta tag for mobile responsiveness'')"

definition imagesWithoutAlt :: "jsstring \<Rightarrow> jsstring list" where
  "imagesWithoutAlt html =
     filter (\<lambda>img. \<not> str_includes img (js ''alt='')) (match_all False img_re html)"

definition images_issue :: "nat \<Rightarrow> jsstring" where
  "images_issue n = decimal n @ js '' images missing alt attributes''"

definition images_recommendation :: jsstring where
  "images_recommendation = js ''Add alt attributes to all images for accessibility''"

definition check_images :: "jsstring \<Rightarrow> score_result \<Rightarrow> score_result" where
  "check_images html st =
     (let n = length (imagesWithoutAlt html)
      in if n > 0
         then st\<lparr>score := score st - min 20 (int n * 2),
                 issues := issues st @ [images_issue n],
                 recommendations := recommendations st @ [images_recommendation]\<rparr>
         else st)"

definition analyzeSEO :: "jsstring \<Rightarrow> score_result" where
  "analyzeSEO html =
     (let st = check_images html (check_viewport html (check_h1 html
                 (check_description html (check_title html initial_result))))
      in st\<lparr>score := max 0 (score st)\<rparr>)"

text \<open>The alt-attribute penalty that \<open>analyzeSEO\<close> subtracts for \<open>n\<close> images without alt.\<close>

definition alt_penalty :: "nat \<Rightarrow> int" where
  "alt_penalty n = (if n > 0 then min 20 (int n * 2) else 0)"

text \<open>
  A finding is one triggered check. Each check of the two scorers pushes one issue text and
  one recommendation text; the two functions below give the texts pushed for a finding.
\<close>

datatype finding =
    MissingHeader jsstring
  | PoweredBy
  | NoTitle
  | NoDescription
  | NoH1
  | NoViewport
  | ImagesWithoutAlt nat

fun issue_text :: "finding \<Rightarrow> jsstring" where
  "issue_text (MissingHeader h) = missing_issue h"
| "issue_text PoweredBy = powered_issue"
| "issue_text NoTitle = js ''Missing page title''"
| "issue_text NoDescription = js ''Missing meta description''"
| "issue_text NoH1 = js ''Missing H1 tag''"
| "issue_text NoViewport = js ''Missing viewport meta tag''"
| "issue_text (ImagesWithoutAlt n) = images_issue n"

fun recommendation_text :: "finding \<Rightarrow> jsstring" where
  "recommendation_text (MissingHeader h) = missing_recommendation h"
| "recommendation_text PoweredBy = powered_recommendation"
| "recommendation_text NoTitle = js ''Add a descriptive page title''"
| "recommendation_text NoDescription = js ''Add a meta description for better search results''"
| "recommendation_text NoH1 = js ''Add an H1 tag for better content structure''"
| "recommendation_text NoViewport = js ''Add viewport meta tag for mobile responsiveness''"
| "recommendation_text (ImagesWithoutAlt n) = images_recommendation"

definition security_findings :: "headers \<Rightarrow> finding list" where
  "security_findings hs =
     map MissingHeader (missing_headers hs) @ (if truthy (hs x_powered_by) then [PoweredBy] else [])"

definition seo_findings :: "jsstring \<Rightarrow> finding list" where
  "seo_findings html =
     (if regex_exec True title_re html = None then [NoTitle] else [])
     @ (if regex_exec True description_re html = None then [NoDescription] else [])
     @ (if regex_exec True h1_re html = None then [NoH1] else [])
     @ (if regex_exec True viewport_re html = None then [NoViewport] else [])
     @ (if length (imagesWithoutAlt html) > 0
        then [ImagesWithoutAlt (length (imagesWithoutAlt html))] else [])"

section \<open>analyzePerformance\<close>

text \<open>
  \<open>new Blob([html]).size\<close>: the string is converted to a sequence of Unicode scalar
  values (a surrogate pair is one code point, a lone surrogate becomes U+FFFD) and
  encoded as UTF-8; the size is the number of bytes.
\<close>

definition is_high_surrogate :: "char16 \<Rightarrow> bool" where
  "is_high_surrogate c = (0xD800 \<le> c \<and> c \<le> 0xDBFF)"

definition is_low_surrogate :: "char16 \<Rightarrow> bool" where
  "is_low_surrogate c = (0xDC00 \<le> c \<and> c \<le> 0xDFFF)"

fun code_points :: "jsstring \<Rightarrow> nat list" where
  "code_points [] = []"
| "code_points [c] = [if is_high_surrogate c \<or> is_low_surrogate c then 0xFFFD else unat c]"
| "code_points (c # d # cs) =
     (if is_high_surrogate c \<and> is_low_surrogate d
      then (0x10000 + (unat c - 0xD800) * 1024 + (unat d - 0xDC00)) # code_points cs
      else (if is_high_surrogate c \<or> is_low_surrogate c then 0xFFFD else unat c)
             # code_points (d # cs))"

definition utf8_bytes :: "nat \<Rightarrow> 8 word list" where
  "utf8_bytes cp =
     (if cp < 0x80 then [of_nat cp]
      else if cp < 0x800 then [of_nat (0xC0 + cp div 64), of_nat (0x80 + cp mod 64)]
      else if cp < 0x10000
      then [of_nat (0xE0 + cp div 4096), of_nat (0x80 + cp div 64 mod 64),
            of_nat (0x80 + cp mod 64)]
      else [of_nat (0xF0 + cp div 262144), of_nat (0x80 + cp div 4096 mod 64),
            of_nat (0x80 + cp div 64 mod 64), of_nat (0x80 + cp mod 64)])"

definition utf8_encode :: "jsstring \<Rightarrow> 8 word list" where
  "utf8_encode s = concat (map utf8_bytes (code_points s))"

definition blob_size :: "jsstring list \<Rightarrow> nat" where
  "blob_size parts = length (concat (map utf8_encode parts))"

text \<open>
  Numbers. \<open>loadTime\<close> is a difference of two \<open>Date.now()\<close> values: an integer, and
  below \<open>2^53\<close> it is a double exactly. A finite non-negative double is
  \<open>mant * 2^expo\<close>. The product of two doubles is the exact product rounded to 53
  significant bits, ties to even (neither overflow nor underflow can arise for an
  integer below \<open>2^53\<close> times \<open>0.3\<close> or \<open>0.8\<close>).
\<close>

record double =
  mant :: nat
  expo :: int

definition double_of_nat :: "nat \<Rightarrow> double" where
  "double_of_nat n = \<lparr>mant = n, expo = 0\<rparr>"

text \<open>The literals \<open>0.3\<close> and \<open>0.8\<close>: the doubles nearest to three and eight tenths.\<close>

definition lit_0_3 :: double where
  "lit_0_3 = \<lparr>mant = 5404319552844595, expo = - 54\<rparr>"

definition lit_0_8 :: double where
  "lit_0_8 = \<lparr>mant = 7205759403792794, expo = - 53\<rparr>"

text \<open>The number of low bits that do not fit into a 53-bit significand.\<close>

definition excess_bits :: "nat \<Rightarrow> nat" where
  "excess_bits n = floorlog 2 n - 53"

text \<open>\<open>n / 2^s\<close> rounded to the nearest integer, a tie to the even one.\<close>

definition round_even :: "nat \<Rightarrow> nat \<Rightarrow> nat" where
  "round_even n s =
     (let q = n div 2 ^ s; r = n mod 2 ^ s
      in if 2 * r < 2 ^ s then q
         else if 2 ^ s < 2 * r then q + 1
         else if even q then q else q + 1)"

definition double_mul :: "double \<Rightarrow> double \<Rightarrow> double" where
  "double_mul x y =
     (let n = mant x * mant y; s = excess_bits n
      in \<lparr>mant = round_even n s, expo = expo x + expo y + int s\<rparr>)"

definition math_floor :: "double \<Rightarrow> nat" where
  "math_floor x =
     (if 0 \<le> expo x then mant x * 2 ^ nat (expo x) else mant x div 2 ^ nat (- expo x))"

record performance =
  ttfb :: nat
  domContentLoaded :: nat
  pageSize :: nat
  resourceCount :: nat

text \<open>\<open>/<(script|link|img)/g\<close>\<close>

definition resource_re :: regex where
  "resource_re = [One (Lit chr_lt), Alts [js ''script'', js ''link'', js ''img'']]"

definition analyzePerformance :: "jsstring \<Rightarrow> headers \<Rightarrow> nat \<Rightarrow> performance" where
  "analyzePerformance html hs loadTime =
     \<lparr>ttfb = math_floor (double_mul (double_of_nat loadTime) lit_0_3),
      domContentLoaded = math_floor (double_mul (double_of_nat loadTime) lit_0_8),
      pageSize = blob_size [html],
      resourceCount = length (match_all False resource_re html)\<rparr>"

text \<open>
  The number of positions of a string at which a literal word starts: what the
  specification calls the occurrences of the word.
\<close>

fun occurrences :: "jsstring \<Rightarrow> jsstring \<Rightarrow> nat" where
  "occurrences w [] = (if w = [] then 1 else 0)"
| "occurrences w (c # cs) = (if prefix w (c # cs) then 1 else 0) + occurrences w cs"

section \<open>detectTechnologies\<close>

record technology =
  name :: jsstring
  category :: jsstring
  confidence :: nat

definition tech :: "string \<Rightarrow> string \<Rightarrow> nat \<Rightarrow> technology" where
  "tech n c k = \<lparr>name = js n, category = js c, confidence = k\<rparr>"

definition server_technologies :: "headers \<Rightarrow> technology list" where
  "server_technologies hs =
     (case hs (js ''server'') of
        None \<Rightarrow> []
      | Some server \<Rightarrow>
          if server = [] then []
          else (if str_includes server (js ''nginx'')
                then [tech ''Nginx'' ''Web Server'' 100] else [])
             @ (if str_includes server (js ''Apache'')
                then [tech ''Apache'' ''Web Server'' 100] else [])
             @ (if str_includes server (js ''cloudflare'')
                then [tech ''Cloudflare'' ''CDN'' 100] else []))"

definition detectTechnologies :: "jsstring \<Rightarrow> headers \<Rightarrow> technology list" where
  "detectTechnologies html hs =
     server_technologies hs
     @ (if str_includes html (js ''_next/static'') \<or> str_includes html (js ''__NEXT_DATA__'')
        then [tech ''Next.js'' ''Framework'' 95] else [])
     @ (if str_includes html (js ''react'') \<or> str_includes html (js ''React'')
        then [tech ''React'' ''Library'' 80] else [])
     @ (if str_includes html (js ''vue'') \<or> str_includes html (js ''Vue'')
        then [tech ''Vue.js'' ''Framework'' 80] else [])
     @ (if str_includes html (js ''angular'') \<or> str_includes html (js ''ng-'')
        then [tech ''Angular'' ''Framework'' 80] else [])
     @ (if str_includes html (js ''bootstrap'') \<or> str_includes html (js ''Bootstrap'')
        then [tech ''Bootstrap'' ''CSS Framework'' 90] else [])
     @ (if str_includes html (js ''tailwind'') \<or> str_includes html (js ''Tailwind'')
        then [tech ''Tailwind CSS'' ''CSS Framework'' 90] else [])
     @ (if str_includes html (js ''google-analytics'') \<or> str_includes html (js ''gtag'')
        then [tech ''Google Analytics'' ''Analytics'' 95] else [])
     @ (if str_includes html (js ''googletagmanager'')
        then [tech ''Google Tag Manager'' ''Analytics'' 95] else [])
     @ (if str_includes html (js ''wp-content'') \<or> str_includes html (js ''wordpress'')
        then [tech ''WordPress'' ''CMS'' 95] else [])
     @ (if str_includes html (js ''shopify'')
        then [tech ''Shopify'' ''E-commerce'' 95] else [])"

text \<open>Every technology a rule can push, in the order of the rules in the source.\<close>

definition detection_rules :: "technology list" where
  "detection_rules =
     [tech ''Nginx'' ''Web Server'' 100, tech ''Apache'' ''Web Server'' 100,
      tech ''Cloudflare'' ''CDN'' 100, tech ''Next.js'' ''Framework'' 95,
      tech ''React'' ''Library'' 80, tech ''Vue.js'' ''Framework'' 80,
      tech ''Angular'' ''Framework'' 80, tech ''Bootstrap'' ''CSS Framework'' 90,
      tech ''Tailwind CSS'' ''CSS Framework'' 90, tech ''Google Analytics'' ''Analytics'' 95,
      tech ''Google Tag Manager'' ''Analytics'' 95, tech ''WordPress'' ''CMS'' 95,
      tech ''Shopify'' ''E-commerce'' 95]"

section \<open>Bulk analysis jobs\<close>

text \<open>
  The table \<open>bulkAnalysisJobs\<close>. Documents are never deleted, so the table is the list
  of its documents in insertion order and a document id is a position in it.
  \<open>Date.now()\<close> is an argument of each operation.
\<close>

record bulk_result =
  url :: jsstring
  success :: bool
  analysisId :: "nat option"
  error :: "jsstring option"

record bulk_job =
  userId :: nat
  urls :: "jsstring list"
  status :: jsstring
  results :: "bulk_result list option"
  createdAt :: nat
  completedAt :: "nat option"

type_synonym job_table = "bulk_job list"

datatype failure = AuthenticationRequired | DocumentNotFound

text \<open>\<open>ctx.db.insert("bulkAnalysisJobs", ...)\<close>: returns the new id.\<close>

definition createBulkJob :: "job_table \<Rightarrow> nat \<Rightarrow> jsstring list \<Rightarrow> nat \<Rightarrow> nat \<times> job_table" where
  "createBulkJob tbl uid us now =
     (length tbl,
      tbl @ [\<lparr>userId = uid, urls = us, status = js ''pending'', results = None,
              createdAt = now, completedAt = None\<rparr>])"

text \<open>\<open>ctx.db.patch(jobId, ...)\<close>: throws when there is no such document.\<close>

definition updateBulkJob ::
  "job_table \<Rightarrow> nat \<Rightarrow> bulk_result list \<Rightarrow> nat \<Rightarrow> failure + job_table" where
  "updateBulkJob tbl jobId rs now =
     (if jobId < length tbl
      then Inr (tbl[jobId := (tbl ! jobId)\<lparr>status := js ''completed'', results := Some rs,
                                           completedAt := Some now\<rparr>])
      else Inl DocumentNotFound)"

text \<open>
  The loop of \<open>bulkAnalyzeSites\<close>. What \<open>analyzeSite\<close> and \<open>getByDomain\<close> give for the
  \<open>k\<close>-th URL depends on the network and on the table of analyses: it is the argument
  \<open>outcome\<close>, \<open>Inl\<close> the message of a thrown error, \<open>Inr\<close> the id of the stored analysis
  when there is one.
\<close>

fun process_urls ::
  "(nat \<Rightarrow> jsstring \<Rightarrow> jsstring + nat option) \<Rightarrow> nat \<Rightarrow> jsstring list \<Rightarrow> bulk_result list" where
  "process_urls outcome k [] = []"
| "process_urls outcome k (u # us) =
     (case outcome k u of
        Inr aid \<Rightarrow> \<lparr>url = u, success = True, analysisId = aid, error = None\<rparr>
      | Inl msg \<Rightarrow> \<lparr>url = u, success = False, analysisId = None, error = Some msg\<rparr>)
     # process_urls outcome (Suc k) us"

definition bulkAnalyzeSites ::
  "nat option \<Rightarrow> jsstring list \<Rightarrow> (nat \<Rightarrow> jsstring \<Rightarrow> jsstring + nat option) \<Rightarrow> nat \<Rightarrow> nat
     \<Rightarrow> job_table \<Rightarrow> (failure + nat \<times> bulk_result list) \<times> job_table" where
  "bulkAnalyzeSites auth us outcome t0 t1 tbl =
     (case auth of
        None \<Rightarrow> (Inl AuthenticationRequired, tbl)
      | Some uid \<Rightarrow>
          (let (jobId, tbl1) = createBulkJob tbl uid us t0;
               rs = process_urls outcome 0 us
           in case updateBulkJob tbl1 jobId rs t1 of
                Inl e \<Rightarrow> (Inl e, tbl1)
              | Inr tbl2 \<Rightarrow> (Inr (jobId, rs), tbl2)))"

text \<open>
  The two mutations are the only operations of the repository that write the table.
  Each runs as one transaction; one that throws leaves the table as it was. A history
  of the table is a list of calls, in any order and with any arguments.
\<close>

datatype job_op =
    Create nat "jsstring list" nat
  | Update nat "bulk_result list" nat

fun apply_job_op :: "job_op \<Rightarrow> job_table \<Rightarrow> job_table" where
  "apply_job_op (Create uid us now) tbl = snd (createBulkJob tbl uid us now)"
| "apply_job_op (Update jobId rs now) tbl =
     (case updateBulkJob tbl jobId rs now of Inl e \<Rightarrow> tbl | Inr tbl' \<Rightarrow> tbl')"

definition run_job_ops :: "job_op list \<Rightarrow> job_table" where
  "run_job_ops ops = fold apply_job_op ops []"

section \<open>Notions used to state the properties\<close>

text \<open>The two status values that the mutations write.\<close>

definition status_written :: "jsstring \<Rightarrow> bool" where
  "status_written s = (s = js ''pending'' \<or> s = js ''completed'')"

text \<open>The occurrences of the three resource tags in a page.\<close>

definition resource_occurrences :: "jsstring \<Rightarrow> nat" where
  "resource_occurrences s =
     occurrences (js ''<script'') s + occurrences (js ''<link'') s + occurrences (js ''<img'') s"

section \<open>Sample inputs\<close>

definition hsts_capitalised :: headers where
  "hsts_capitalised = [js ''Strict-Transport-Security'' \<mapsto> js ''max-age=31536000'']"

definition hsts_lower :: headers where
  "hsts_lower = [js ''strict-transport-security'' \<mapsto> js ''max-age=31536000'']"

definition hsts_empty :: headers where
  "hsts_empty = [js ''strict-transport-security'' \<mapsto> [], x_powered_by \<mapsto> []]"

definition plain_page :: jsstring where
  "plain_page = js ''<p>hello</p>''"

definition fifteen_images :: jsstring where
  "fifteen_images = js ''<img><img><img><img><img><img><img><img><img><img><img><img><img><img><img>''"

definition react_tailwind_page :: jsstring where
  "react_tailwind_page = js ''<div id=react-root class=tailwind>''"

definition nginx_headers :: headers where
  "nginx_headers = [js ''server'' \<mapsto> js ''nginx/1.18'']"

definition two_urls :: "jsstring list" where
  "two_urls = [js ''valid-url.example'', js ''not a url'']"

definition every_url_fails :: "nat \<Rightarrow> jsstring \<Rightarrow> jsstring + nat option" where
  "every_url_fails k u = Inl (js ''Failed to analyze site: fetch failed'')"

definition sample_history :: "job_op list" where
  "sample_history =
     [Create 7 two_urls 1000, Update 5 [] 1500, Create 8 [] 2000,
      Update 0 (process_urls every_url_fails 0 two_urls) 3000]"

definition upper_img_page :: jsstring where
  "upper_img_page = js ''<IMG src=a.png>''"

definition lower_img_page :: jsstring where
  "lower_img_page = js ''<img src=a.png>''"

definition alt_img_page :: jsstring where
  "alt_img_page = js ''<img src=a.png alt=logo>''"

definition upper_h1_page :: jsstring where
  "upper_h1_page = js ''<H1>News</H1>''"

definition resource_page :: jsstring where
  "resource_page = js ''<script><scr<link<<img<Img''"

section \<open>Facts about the security scorer\<close>

lemma fold_check_header_score:
  "score (fold (check_header hs) xs st) =
     score st - 15 * int (length (filter (\<lambda>h. \<not> truthy (hs h)) xs))"
  by (induction xs arbitrary: st) (simp_all add: check_header_def)

lemma fold_check_header_issues:
  "issues (fold (check_header hs) xs st) =
     issues st @ map missing_issue (filter (\<lambda>h. \<not> truthy (hs h)) xs)"
  by (induction xs arbitrary: st) (simp_all add: check_header_def)

lemma fold_check_header_recommendations:
  "recommendations (fold (check_header hs) xs st) =
     recommendations st @ map missing_recommendation (filter (\<lambda>h. \<not> truthy (hs h)) xs)"
  by (induction xs arbitrary: st) (simp_all add: check_header_def)

lemma security_score:
  "score (analyzeSecurityHeaders hs) =
     max 0 (100 - 15 * int (length (missing_headers hs))
                - (if truthy (hs x_powered_by) then 10 else 0))"
  by (simp add: analyzeSecurityHeaders_def check_powered_def fold_check_header_score
      missing_headers_def initial_result_def Let_def)

lemma security_issues:
  "issues (analyzeSecurityHeaders hs) =
     map missing_issue (missing_headers hs)
       @ (if truthy (hs x_powered_by) then [powered_issue] else [])"
  by (simp add: analyzeSecurityHeaders_def check_powered_def fold_check_header_issues
      missing_headers_def initial_result_def Let_def)

lemma security_recommendations:
  "recommendations (analyzeSecurityHeaders hs) =
     map missing_recommendation (missing_headers hs)
       @ (if truthy (hs x_powered_by) then [powered_recommendation] else [])"
  by (simp add: analyzeSecurityHeaders_def check_powered_def
      fold_check_header_recommendations missing_headers_def initial_result_def Let_def)

lemma length_missing_headers: "length (missing_headers hs) \<le> 6"
proof -
  have "length (missing_headers hs) \<le> length securityHeaders"
    unfolding missing_headers_def by (rule length_filter_le)
  then show ?thesis by (simp add: securityHeaders_def)
qed

lemma missing_issue_inj: "missing_issue a = missing_issue b \<longleftrightarrow> a = b"
  by (simp add: missing_issue_def)

lemma missing_issue_not_powered: "missing_issue h \<noteq> powered_issue"
  by (simp add: missing_issue_def powered_issue_def js_def)

lemma missing_issue_mem:
  "missing_issue h \<in> set (issues (analyzeSecurityHeaders hs)) \<longleftrightarrow>
     h \<in> set securityHeaders \<and> \<not> truthy (hs h)"
  by (auto simp: security_issues missing_headers_def missing_issue_inj missing_issue_not_powered)

lemma security_score_exact:
  "score (analyzeSecurityHeaders hs) =
     100 - 15 * int (length (missing_headers hs)) - (if truthy (hs x_powered_by) then 10 else 0)"
  using length_missing_headers [of hs] by (simp add: security_score)

lemma distinct_securityHeaders: "distinct securityHeaders"
  by (simp add: securityHeaders_def js_def)

lemma x_powered_by_not_security: "x_powered_by \<notin> set securityHeaders"
  by (simp add: securityHeaders_def x_powered_by_def js_def)

lemma analyzeSecurityHeaders_cong:
  assumes "\<And>k. truthy (hs k) = truthy (hs' k)"
  shows "analyzeSecurityHeaders hs = analyzeSecurityHeaders hs'"
proof -
  have "check_header hs = check_header hs'"
    by (intro ext) (simp add: check_header_def assms)
  moreover have "check_powered hs = check_powered hs'"
    by (intro ext) (simp add: check_powered_def assms)
  ultimately show ?thesis by (simp add: analyzeSecurityHeaders_def)
qed

lemma missing_recommendation_mem:
  "h \<in> set securityHeaders \<Longrightarrow> \<not> truthy (hs h) \<Longrightarrow>
     missing_recommendation h \<in> set (recommendations (analyzeSecurityHeaders hs))"
  by (simp add: security_recommendations missing_headers_def)

lemma powered_issue_mem:
  "powered_issue \<in> set (issues (analyzeSecurityHeaders hs)) \<longleftrightarrow> truthy (hs x_powered_by)"
  by (auto simp: security_issues missing_issue_not_powered [THEN not_sym])

lemma missing_headers_upd:
  assumes "h \<in> set securityHeaders" "\<not> truthy (hs h)" "v \<noteq> []"
  shows "length (missing_headers hs) = Suc (length (missing_headers (hs(h \<mapsto> v))))"
proof -
  have eq: "missing_headers (hs(h \<mapsto> v)) = removeAll h (missing_headers hs)"
    unfolding missing_headers_def removeAll_filter_not_eq filter_filter
    by (rule filter_cong) (auto simp: truthy_def assms)
  have "h \<in> set (missing_headers hs)" using assms by (simp add: missing_headers_def)
  moreover have "distinct (missing_headers hs)"
    unfolding missing_headers_def using distinct_securityHeaders by simp
  ultimately show ?thesis
    unfolding eq by (simp add: distinct_remove1_removeAll [symmetric] length_remove1)
       (metis length_pos_if_in_set Suc_pred)
qed

text \<open>
  Claim C3, as the code has it. The scorer reads \<open>headers[name]\<close> with the lower-case
  name itself as the key; no case folding takes place. For each of the six names, the
  issue for the name is reported, and the name is among the headers counted at 15 points
  each, exactly when the map has no non-empty value under that very key.
\<close>
theorem C3_exact_key_lookup:
  assumes "h \<in> set securityHeaders"
  shows "(missing_issue h \<in> set (issues (analyzeSecurityHeaders hs))
            \<longleftrightarrow> \<not> (\<exists>v. hs h = Some v \<and> v \<noteq> []))
       \<and> (h \<in> set (missing_headers hs) \<longleftrightarrow> \<not> (\<exists>v. hs h = Some v \<and> v \<noteq> []))
       \<and> score (analyzeSecurityHeaders hs) =
            100 - 15 * int (length (missing_headers hs))
                - (if truthy (hs x_powered_by) then 10 else 0)"
proof -
  have t: "truthy (hs h) \<longleftrightarrow> (\<exists>v. hs h = Some v \<and> v \<noteq> [])"
    by (cases "hs h") (simp_all add: truthy_def)
  show ?thesis
    using assms by (simp add: missing_issue_mem security_score_exact t missing_headers_def)
qed

text \<open>
  Claim C10. Presence is tested by truthiness of the value. A security header name that
  maps to the empty string is reported as missing, with its issue and recommendation,
  the result is the one for a map without the key, and the score is 15 below the score
  with a non-empty value there. \<open>x-powered-by\<close> mapping to the empty string brings no
  X-Powered-By issue or recommendation: the result is the one for a map without the key.
\<close>
theorem C10_empty_value_is_missing:
  "(h \<in> set securityHeaders \<and> hs h = Some [] \<longrightarrow>
       missing_issue h \<in> set (issues (analyzeSecurityHeaders hs))
     \<and> missing_recommendation h \<in> set (recommendations (analyzeSecurityHeaders hs))
     \<and> analyzeSecurityHeaders hs = analyzeSecurityHeaders (hs(h := None))
     \<and> (\<forall>v. v \<noteq> [] \<longrightarrow>
           score (analyzeSecurityHeaders hs) = score (analyzeSecurityHeaders (hs(h \<mapsto> v))) - 15))
 \<and> (hs x_powered_by = Some [] \<longrightarrow>
       powered_issue \<notin> set (issues (analyzeSecurityHeaders hs))
     \<and> powered_recommendation \<notin> set (recommendations (analyzeSecurityHeaders hs))
     \<and> analyzeSecurityHeaders hs = analyzeSecurityHeaders (hs(x_powered_by := None)))"
proof (intro conjI impI allI)
  assume a: "h \<in> set securityHeaders \<and> hs h = Some []"
  then have nt: "\<not> truthy (hs h)" by (simp add: truthy_def)
  show "missing_issue h \<in> set (issues (analyzeSecurityHeaders hs))"
    using a nt by (simp add: missing_issue_mem)
  show "missing_recommendation h \<in> set (recommendations (analyzeSecurityHeaders hs))"
    using a nt by (simp add: missing_recommendation_mem)
  show "analyzeSecurityHeaders hs = analyzeSecurityHeaders (hs(h := None))"
    by (rule analyzeSecurityHeaders_cong) (use a in \<open>simp add: truthy_def\<close>)
  fix v :: jsstring assume v: "v \<noteq> []"
  have ne: "h \<noteq> x_powered_by" using a x_powered_by_not_security by auto
  show "score (analyzeSecurityHeaders hs) = score (analyzeSecurityHeaders (hs(h \<mapsto> v))) - 15"
    using missing_headers_upd [of h hs v] a nt v ne by (simp add: security_score_exact)
next
  assume p: "hs x_powered_by = Some []"
  then have nt: "\<not> truthy (hs x_powered_by)" by (simp add: truthy_def)
  show "powered_issue \<notin> set (issues (analyzeSecurityHeaders hs))"
    using nt by (simp add: powered_issue_mem)
  show "powered_recommendation \<notin> set (recommendations (analyzeSecurityHeaders hs))"
    using nt by (auto simp: security_recommendations missing_recommendation_def powered_recommendation_def js_def)
  show "analyzeSecurityHeaders hs = analyzeSecurityHeaders (hs(x_powered_by := None))"
    by (rule analyzeSecurityHeaders_cong) (use p in \<open>simp add: truthy_def\<close>)
qed

text \<open>
  Claim C1, as the code has it. A header map with none of the six security header names
  and without \<open>x-powered-by\<close> gets score 10 (100 - 6 * 15, and no X-Powered-By penalty,
  which is for a header that is present) and exactly 6 issues.
\<close>
theorem C1_security_all_missing:
  assumes "\<forall>h \<in> set securityHeaders. hs h = None" and "hs x_powered_by = None"
  shows "score (analyzeSecurityHeaders hs) = 10
       \<and> length (issues (analyzeSecurityHeaders hs)) = 6"
proof -
  have m: "missing_headers hs = securityHeaders"
    unfolding missing_headers_def using assms(1) by (simp add: truthy_def)
  have l: "length securityHeaders = 6" by (simp add: securityHeaders_def)
  show ?thesis
    using assms(2) by (simp add: security_score security_issues m l truthy_def)
qed

text \<open>The empty header map is such a map.\<close>
theorem C1_security_all_missing_witness:
  "list_all (\<lambda>h. (Map.empty :: headers) h = None) securityHeaders
   \<and> (Map.empty :: headers) x_powered_by = None
   \<and> score (analyzeSecurityHeaders Map.empty) = 10
   \<and> length (issues (analyzeSecurityHeaders Map.empty)) = 6"
  using C1_security_all_missing [of Map.empty] by (simp add: list_all_iff)

text \<open>Claim C1 as stated asks for score 0; on the empty header map the score is 10.\<close>
theorem C1_score_zero_counterexample:
  "(Map.empty :: headers) x_powered_by = None
   \<and> list_all (\<lambda>h. (Map.empty :: headers) h = None) securityHeaders
   \<and> score (analyzeSecurityHeaders Map.empty) = 10
   \<and> score (analyzeSecurityHeaders Map.empty) \<noteq> 0"
  by (simp add: security_score missing_headers_def securityHeaders_def truthy_def)

text \<open>
  Claim C3 as stated fails on a map whose only key is \<open>Strict-Transport-Security\<close>: a
  key equal to \<open>strict-transport-security\<close> up to case is present, with a non-empty
  value, and still the header is reported missing and all six penalties apply.
\<close>
theorem C3_case_insensitive_counterexample:
  "hsts_capitalised (js ''Strict-Transport-Security'') = Some (js ''max-age=31536000'')
   \<and> spec_ci_equal (js ''Strict-Transport-Security'') (js ''strict-transport-security'')
   \<and> missing_issue (js ''strict-transport-security'')
        \<in> set (issues (analyzeSecurityHeaders hsts_capitalised))
   \<and> score (analyzeSecurityHeaders hsts_capitalised) = 10"
  by (simp add: hsts_capitalised_def spec_ci_equal_def ascii_lower_def js_def security_score
      security_issues missing_headers_def securityHeaders_def truthy_def missing_issue_def
      x_powered_by_def)

text \<open>With the lower-case key the header is found: five headers remain missing.\<close>
theorem C3_exact_key_lookup_witness:
  "js ''strict-transport-security'' \<in> set securityHeaders
   \<and> missing_issue (js ''strict-transport-security'')
        \<notin> set (issues (analyzeSecurityHeaders hsts_lower))
   \<and> js ''strict-transport-security'' \<notin> set (missing_headers hsts_lower)
   \<and> score (analyzeSecurityHeaders hsts_lower) = 25"
proof -
  have h: "js ''strict-transport-security'' \<in> set securityHeaders"
    by (simp add: securityHeaders_def)
  have v: "\<exists>v. hsts_lower (js ''strict-transport-security'') = Some v \<and> v \<noteq> []"
    by (simp add: hsts_lower_def js_def)
  have l: "length (missing_headers hsts_lower) = 5"
    by (simp add: missing_headers_def securityHeaders_def hsts_lower_def js_def truthy_def)
  have p: "\<not> truthy (hsts_lower x_powered_by)"
    by (simp add: hsts_lower_def x_powered_by_def js_def truthy_def)
  show ?thesis
    using C3_exact_key_lookup [OF h, of hsts_lower] h v l p by simp
qed

text \<open>A map with both \<open>strict-transport-security\<close> and \<open>x-powered-by\<close> empty.\<close>
theorem C10_empty_value_is_missing_witness:
  "js ''strict-transport-security'' \<in> set securityHeaders
   \<and> hsts_empty (js ''strict-transport-security'') = Some []
   \<and> hsts_empty x_powered_by = Some []
   \<and> missing_issue (js ''strict-transport-security'')
        \<in> set (issues (analyzeSecurityHeaders hsts_empty))
   \<and> missing_recommendation (js ''strict-transport-security'')
        \<in> set (recommendations (analyzeSecurityHeaders hsts_empty))
   \<and> powered_issue \<notin> set (issues (analyzeSecurityHeaders hsts_empty))
   \<and> score (analyzeSecurityHeaders hsts_empty)
        = score (analyzeSecurityHeaders (hsts_empty(js ''strict-transport-security'' \<mapsto> js ''max-age=1''))) - 15"
proof -
  have h: "js ''strict-transport-security'' \<in> set securityHeaders"
    by (simp add: securityHeaders_def)
  have e: "hsts_empty (js ''strict-transport-security'') = Some []"
    by (simp add: hsts_empty_def x_powered_by_def js_def)
  have p: "hsts_empty x_powered_by = Some []"
    by (simp add: hsts_empty_def)
  have n: "js ''max-age=1'' \<noteq> []" by (simp add: js_def)
  show ?thesis
    using C10_empty_value_is_missing [of "js ''strict-transport-security''" hsts_empty] h e p n
    by blast
qed

section \<open>Facts about the SEO scorer\<close>

lemma check_missing_score:
  "score (check_missing re p i r html st) =
     score st - (if regex_exec True re html = None then p else 0)"
  by (simp add: check_missing_def)

lemma check_missing_issues:
  "issues (check_missing re p i r html st) =
     issues st @ (if regex_exec True re html = None then [i] else [])"
  by (simp add: check_missing_def)

lemma check_missing_recommendations:
  "recommendations (check_missing re p i r html st) =
     recommendations st @ (if regex_exec True re html = None then [r] else [])"
  by (simp add: check_missing_def)

lemma check_images_score:
  "score (check_images html st) = score st - alt_penalty (length (imagesWithoutAlt html))"
  by (simp add: check_images_def alt_penalty_def Let_def)

lemma check_images_issues:
  "issues (check_images html st) =
     issues st @ (if length (imagesWithoutAlt html) > 0
                  then [images_issue (length (imagesWithoutAlt html))] else [])"
  by (simp add: check_images_def Let_def)

lemma check_images_recommendations:
  "recommendations (check_images html st) =
     recommendations st @ (if length (imagesWithoutAlt html) > 0
                           then [images_recommendation] else [])"
  by (simp add: check_images_def Let_def)

lemmas seo_checks_def = check_title_def check_description_def check_h1_def check_viewport_def

text \<open>The score before the final \<open>Math.max(0, score)\<close>.\<close>

lemma alt_penalty_bounds: "0 \<le> alt_penalty n" "alt_penalty n \<le> 20"
  by (simp_all add: alt_penalty_def)

lemma seo_raw_score:
  "score (check_images html (check_viewport html (check_h1 html
            (check_description html (check_title html initial_result))))) =
     100 - (if regex_exec True title_re html = None then 20 else 0)
         - (if regex_exec True description_re html = None then 15 else 0)
         - (if regex_exec True h1_re html = None then 10 else 0)
         - (if regex_exec True viewport_re html = None then 15 else 0)
         - alt_penalty (length (imagesWithoutAlt html))"
  by (simp add: check_images_score seo_checks_def check_missing_score initial_result_def)

lemma seo_score:
  "score (analyzeSEO html) =
     100 - (if regex_exec True title_re html = None then 20 else 0)
         - (if regex_exec True description_re html = None then 15 else 0)
         - (if regex_exec True h1_re html = None then 10 else 0)
         - (if regex_exec True viewport_re html = None then 15 else 0)
         - alt_penalty (length (imagesWithoutAlt html))"
proof -
  have "score (analyzeSEO html) = max 0 (score (check_images html (check_viewport html (check_h1 html
            (check_description html (check_title html initial_result))))))"
    by (simp add: analyzeSEO_def Let_def)
  then show ?thesis
    unfolding seo_raw_score using alt_penalty_bounds [of "length (imagesWithoutAlt html)"]
    by (simp split: if_splits)
qed

lemma seo_issues: "issues (analyzeSEO html) = map issue_text (seo_findings html)"
  by (simp add: analyzeSEO_def Let_def check_images_issues seo_checks_def check_missing_issues
      initial_result_def seo_findings_def)

lemma seo_recommendations:
  "recommendations (analyzeSEO html) = map recommendation_text (seo_findings html)"
  by (simp add: analyzeSEO_def Let_def check_images_recommendations seo_checks_def
      check_missing_recommendations initial_result_def seo_findings_def)

lemma security_issues_findings:
  "issues (analyzeSecurityHeaders hs) = map issue_text (security_findings hs)"
  by (simp add: security_issues security_findings_def)

lemma security_recommendations_findings:
  "recommendations (analyzeSecurityHeaders hs) = map recommendation_text (security_findings hs)"
  by (simp add: security_recommendations security_findings_def)

lemma regex_exec_plain:
  "regex_exec True title_re plain_page = None"
  "regex_exec True description_re plain_page = None"
  "regex_exec True h1_re plain_page = None"
  "regex_exec True viewport_re plain_page = None"
  "match_all False img_re plain_page = []"
  by (simp_all add: plain_page_def title_re_def description_re_def h1_re_def viewport_re_def
      img_re_def lits_def js_def match_at_def canonicalize_def chr_lt_def)

lemma regex_exec_empty:
  "regex_exec True title_re [] = None"
  "regex_exec True description_re [] = None"
  "regex_exec True h1_re [] = None"
  "regex_exec True viewport_re [] = None"
  "match_all False img_re [] = []"
  by (simp_all add: title_re_def description_re_def h1_re_def viewport_re_def
      img_re_def lits_def js_def match_at_def)

lemma images_fifteen: "length (imagesWithoutAlt fifteen_images) = 15"
  by (simp add: imagesWithoutAlt_def fifteen_images_def img_re_def lits_def js_def match_at_def
      canonicalize_def chr_lt_def chr_gt_def)

text \<open>
  Claim C2, as the code has it. For HTML in which the title, description, h1 and viewport
  patterns find no match and the image pattern finds no tag, the four penalties
  20 + 15 + 10 + 15 = 60 leave score 40, with exactly 4 issues.
\<close>

theorem C2_seo_nothing_found:
  assumes "regex_exec True title_re html = None"
      and "regex_exec True description_re html = None"
      and "regex_exec True h1_re html = None"
      and "regex_exec True viewport_re html = None"
      and "match_all False img_re html = []"
  shows "score (analyzeSEO html) = 40 \<and> length (issues (analyzeSEO html)) = 4"
  using assms
  by (simp add: seo_score seo_issues seo_findings_def imagesWithoutAlt_def alt_penalty_def)

text \<open>A page of one paragraph is such a page.\<close>

theorem C2_seo_nothing_found_witness:
  "regex_exec True title_re plain_page = None
   \<and> regex_exec True description_re plain_page = None
   \<and> regex_exec True h1_re plain_page = None
   \<and> regex_exec True viewport_re plain_page = None
   \<and> match_all False img_re plain_page = []
   \<and> score (analyzeSEO plain_page) = 40 \<and> length (issues (analyzeSEO plain_page)) = 4"
  using C2_seo_nothing_found [of plain_page] regex_exec_plain by simp

text \<open>Claim C2 as stated asks for score 30; on the empty page the score is 40.\<close>

theorem C2_score_thirty_counterexample:
  "regex_exec True title_re [] = None
   \<and> regex_exec True description_re [] = None
   \<and> regex_exec True h1_re [] = None
   \<and> regex_exec True viewport_re [] = None
   \<and> match_all False img_re [] = []
   \<and> score (analyzeSEO []) = 40 \<and> score (analyzeSEO []) \<noteq> 30"
  using regex_exec_empty
  by (simp add: seo_score imagesWithoutAlt_def alt_penalty_def
      del: regex_exec.simps match_all.simps)

text \<open>
  The image check, with the count written out: of the matches of the image pattern, those
  that do not contain \<open>alt=\<close> are counted, and the check subtracts twice their number,
  at most 20, when there is at least one.
\<close>

lemma image_check_penalty:
  "score (check_images html st) =
     score st -
       (if 0 < length (filter (\<lambda>img. \<not> str_includes img (js ''alt=''))
                         (match_all False img_re html))
        then min 20 (2 * int (length (filter (\<lambda>img. \<not> str_includes img (js ''alt=''))
                                        (match_all False img_re html))))
        else 0)"
  by (simp add: check_images_def imagesWithoutAlt_def Let_def mult.commute)

lemmas image_eval =
  imagesWithoutAlt_def img_re_def lits_def js_def match_at_def canonicalize_def
  chr_lt_def chr_gt_def

lemma images_upper: "match_all False img_re upper_img_page = []"
  by (simp add: upper_img_page_def image_eval)

lemma images_lower: "match_all False img_re lower_img_page = [lower_img_page]"
  by (simp add: lower_img_page_def image_eval)

lemma images_alt: "match_all False img_re alt_img_page = [alt_img_page]"
  by (simp add: alt_img_page_def image_eval)

lemma includes_alt:
  "\<not> str_includes lower_img_page (js ''alt='')" "str_includes alt_img_page (js ''alt='')"
  by (simp_all add: lower_img_page_def alt_img_page_def js_def)

lemma h1_upper: "regex_exec True h1_re upper_h1_page = Some (js ''<H1>'')"
  by (simp add: upper_h1_page_def h1_re_def lits_def js_def match_at_def canonicalize_def
      chr_gt_def)

text \<open>
  Claim C6. The image pattern \<open>/<img[^>]*>/g\<close> carries no \<open>i\<close> flag, unlike the patterns
  of the four checks before it. A page with the one tag \<open><IMG src=a.png>\<close>, an image
  without alt text, has no match: the check reports nothing and subtracts nothing, where
  the claim counts one image and a penalty of 2. The same tag in lower case costs 2, a
  lower-case tag with \<open>alt=\<close> costs nothing, and fifteen lower-case tags without alt cost
  20. The h1 check of the same function does find an upper-case \<open><H1>\<close>.
\<close>

theorem C6_uppercase_img_not_counted:
  "match_all False img_re upper_img_page = []
   \<and> issues (check_images upper_img_page initial_result) = []
   \<and> score (check_images upper_img_page initial_result) = 100
   \<and> match_all False img_re lower_img_page = [lower_img_page]
   \<and> issues (check_images lower_img_page initial_result) = [images_issue 1]
   \<and> score (check_images lower_img_page initial_result) = 98
   \<and> match_all False img_re alt_img_page = [alt_img_page]
   \<and> issues (check_images alt_img_page initial_result) = []
   \<and> score (check_images alt_img_page initial_result) = 100
   \<and> length (imagesWithoutAlt fifteen_images) = 15
   \<and> score (check_images fifteen_images initial_result) = 80
   \<and> regex_exec True h1_re upper_h1_page = Some (js ''<H1>'')"
  using images_upper images_lower images_alt includes_alt images_fifteen h1_upper
  by (simp add: check_images_def imagesWithoutAlt_def initial_result_def Let_def
      del: match_all.simps regex_exec.simps str_includes.simps)

text \<open>
  Claim C9. The score of \<open>analyzeSEO\<close> lies between 20 and 100, and the final
  \<open>Math.max(0, score)\<close> changes nothing: the score is the one the five checks leave.
\<close>

theorem C9_seo_score_range:
  "20 \<le> score (analyzeSEO html) \<and> score (analyzeSEO html) \<le> 100
   \<and> score (analyzeSEO html) =
       score (check_images html (check_viewport html (check_h1 html
                (check_description html (check_title html initial_result)))))"
  using alt_penalty_bounds [of "length (imagesWithoutAlt html)"]
  by (simp add: seo_score seo_raw_score)

text \<open>Both ends of the deductions: fifteen images without alt, and a plain page.\<close>

theorem C9_seo_score_range_witness:
  "20 \<le> score (analyzeSEO fifteen_images) \<and> score (analyzeSEO fifteen_images) \<le> 100
   \<and> score (analyzeSEO plain_page) = 40"
  using C9_seo_score_range [of fifteen_images] C9_seo_score_range [of plain_page] regex_exec_plain
  by (simp add: seo_raw_score imagesWithoutAlt_def alt_penalty_def)

text \<open>
  Claim C7. For both scorers the issues are the issue texts, and the recommendations the
  recommendation texts, of one and the same list of findings: the two lists have equal
  length, and at every index the issue and the recommendation belong to the same finding.
\<close>

theorem C7_issues_paired:
  "issues (analyzeSecurityHeaders hs) = map issue_text (security_findings hs)
   \<and> recommendations (analyzeSecurityHeaders hs) = map recommendation_text (security_findings hs)
   \<and> length (issues (analyzeSecurityHeaders hs)) = length (recommendations (analyzeSecurityHeaders hs))
   \<and> (\<forall>i < length (issues (analyzeSecurityHeaders hs)).
         issues (analyzeSecurityHeaders hs) ! i = issue_text (security_findings hs ! i)
       \<and> recommendations (analyzeSecurityHeaders hs) ! i
           = recommendation_text (security_findings hs ! i))
   \<and> issues (analyzeSEO html) = map issue_text (seo_findings html)
   \<and> recommendations (analyzeSEO html) = map recommendation_text (seo_findings html)
   \<and> length (issues (analyzeSEO html)) = length (recommendations (analyzeSEO html))
   \<and> (\<forall>i < length (issues (analyzeSEO html)).
         issues (analyzeSEO html) ! i = issue_text (seo_findings html ! i)
       \<and> recommendations (analyzeSEO html) ! i = recommendation_text (seo_findings html ! i))"
  by (simp add: security_issues_findings security_recommendations_findings seo_issues
      seo_recommendations)

lemma security_findings_hsts_lower:
  "security_findings hsts_lower =
     map MissingHeader [js ''content-security-policy'', js ''x-frame-options'',
       js ''x-content-type-options'', js ''referrer-policy'', js ''permissions-policy'']"
  by (simp add: security_findings_def missing_headers_def securityHeaders_def hsts_lower_def
      x_powered_by_def js_def truthy_def)

lemma seo_findings_plain: "seo_findings plain_page = [NoTitle, NoDescription, NoH1, NoViewport]"
  using regex_exec_plain by (simp add: seo_findings_def imagesWithoutAlt_def)

text \<open>The pairing on a map with only strict-transport-security, and on a plain page.\<close>

theorem C7_issues_paired_witness:
  "length (issues (analyzeSecurityHeaders hsts_lower)) = 5
   \<and> length (recommendations (analyzeSecurityHeaders hsts_lower)) = 5
   \<and> issues (analyzeSecurityHeaders hsts_lower) ! 0
        = missing_issue (js ''content-security-policy'')
   \<and> recommendations (analyzeSecurityHeaders hsts_lower) ! 0
        = missing_recommendation (js ''content-security-policy'')
   \<and> length (issues (analyzeSEO plain_page)) = 4
   \<and> length (recommendations (analyzeSEO plain_page)) = 4
   \<and> issues (analyzeSEO plain_page) ! 3 = js ''Missing viewport meta tag''
   \<and> recommendations (analyzeSEO plain_page) ! 3
        = js ''Add viewport meta tag for mobile responsiveness''"
  using C7_issues_paired [of hsts_lower plain_page]
  by (simp add: security_findings_hsts_lower seo_findings_plain)

section \<open>Facts about the technology detector\<close>

lemma optional_subseq: "subseq (if b then [x] else []) [x]"
  by simp

lemma server_technologies_subseq:
  "subseq (server_technologies hs)
     [tech ''Nginx'' ''Web Server'' 100, tech ''Apache'' ''Web Server'' 100,
      tech ''Cloudflare'' ''CDN'' 100]"
  by (simp add: server_technologies_def split: option.splits)

lemma detection_rules_append:
  "detection_rules =
     [tech ''Nginx'' ''Web Server'' 100, tech ''Apache'' ''Web Server'' 100,
      tech ''Cloudflare'' ''CDN'' 100]
     @ [tech ''Next.js'' ''Framework'' 95] @ [tech ''React'' ''Library'' 80]
     @ [tech ''Vue.js'' ''Framework'' 80] @ [tech ''Angular'' ''Framework'' 80]
     @ [tech ''Bootstrap'' ''CSS Framework'' 90] @ [tech ''Tailwind CSS'' ''CSS Framework'' 90]
     @ [tech ''Google Analytics'' ''Analytics'' 95]
     @ [tech ''Google Tag Manager'' ''Analytics'' 95] @ [tech ''WordPress'' ''CMS'' 95]
     @ [tech ''Shopify'' ''E-commerce'' 95]"
  by (simp add: detection_rules_def)

lemma detectTechnologies_subseq: "subseq (detectTechnologies html hs) detection_rules"
  unfolding detectTechnologies_def detection_rules_append
  by (intro list_emb_append_mono server_technologies_subseq optional_subseq)

lemma detectTechnologies_react_tailwind:
  assumes "str_includes html (js ''react'')" and "str_includes html (js ''tailwind'')"
  shows "\<exists>xs ys zs. detectTechnologies html hs =
           xs @ [tech ''React'' ''Library'' 80] @ ys
              @ [tech ''Tailwind CSS'' ''CSS Framework'' 90] @ zs"
proof -
  let ?xs = "server_technologies hs
     @ (if str_includes html (js ''_next/static'') \<or> str_includes html (js ''__NEXT_DATA__'')
        then [tech ''Next.js'' ''Framework'' 95] else [])"
  let ?ys = "(if str_includes html (js ''vue'') \<or> str_includes html (js ''Vue'')
        then [tech ''Vue.js'' ''Framework'' 80] else [])
     @ (if str_includes html (js ''angular'') \<or> str_includes html (js ''ng-'')
        then [tech ''Angular'' ''Framework'' 80] else [])
     @ (if str_includes html (js ''bootstrap'') \<or> str_includes html (js ''Bootstrap'')
        then [tech ''Bootstrap'' ''CSS Framework'' 90] else [])"
  let ?zs = "(if str_includes html (js ''google-analytics'') \<or> str_includes html (js ''gtag'')
        then [tech ''Google Analytics'' ''Analytics'' 95] else [])
     @ (if str_includes html (js ''googletagmanager'')
        then [tech ''Google Tag Manager'' ''Analytics'' 95] else [])
     @ (if str_includes html (js ''wp-content'') \<or> str_includes html (js ''wordpress'')
        then [tech ''WordPress'' ''CMS'' 95] else [])
     @ (if str_includes html (js ''shopify'')
        then [tech ''Shopify'' ''E-commerce'' 95] else [])"
  have "detectTechnologies html hs =
          ?xs @ [tech ''React'' ''Library'' 80] @ ?ys
              @ [tech ''Tailwind CSS'' ''CSS Framework'' 90] @ ?zs"
    unfolding detectTechnologies_def using assms by simp
  then show ?thesis by blast
qed

text \<open>
  Claim C5. The output of \<open>detectTechnologies\<close> is a subsequence of the list of all
  rule results in the order of the rules in the source, whatever the confidences. When
  the HTML contains both \<open>react\<close> and \<open>tailwind\<close>, the React entry and the Tailwind CSS
  entry are both in the output, React before Tailwind CSS.
\<close>

theorem C5_detection_rule_order:
  "subseq (detectTechnologies html hs) detection_rules
   \<and> (str_includes html (js ''react'') \<and> str_includes html (js ''tailwind'') \<longrightarrow>
        tech ''React'' ''Library'' 80 \<in> set (detectTechnologies html hs)
      \<and> tech ''Tailwind CSS'' ''CSS Framework'' 90 \<in> set (detectTechnologies html hs)
      \<and> (\<exists>xs ys zs. detectTechnologies html hs =
            xs @ [tech ''React'' ''Library'' 80] @ ys
               @ [tech ''Tailwind CSS'' ''CSS Framework'' 90] @ zs))"
proof (intro conjI impI)
  show "subseq (detectTechnologies html hs) detection_rules"
    by (rule detectTechnologies_subseq)
next
  assume a: "str_includes html (js ''react'') \<and> str_includes html (js ''tailwind'')"
  then obtain xs ys zs where e: "detectTechnologies html hs =
            xs @ [tech ''React'' ''Library'' 80] @ ys
               @ [tech ''Tailwind CSS'' ''CSS Framework'' 90] @ zs"
    using detectTechnologies_react_tailwind by blast
  show "tech ''React'' ''Library'' 80 \<in> set (detectTechnologies html hs)"
    unfolding e by simp
  show "tech ''Tailwind CSS'' ''CSS Framework'' 90 \<in> set (detectTechnologies html hs)"
    unfolding e by simp
  show "\<exists>xs ys zs. detectTechnologies html hs =
            xs @ [tech ''React'' ''Library'' 80] @ ys
               @ [tech ''Tailwind CSS'' ''CSS Framework'' 90] @ zs"
    using e by blast
qed

lemma react_tailwind_page_includes:
  "str_includes react_tailwind_page (js ''react'')"
  "str_includes react_tailwind_page (js ''tailwind'')"
  by (simp_all add: react_tailwind_page_def js_def)

lemma detect_react_tailwind_page:
  "detectTechnologies react_tailwind_page nginx_headers =
     [tech ''Nginx'' ''Web Server'' 100, tech ''React'' ''Library'' 80,
      tech ''Tailwind CSS'' ''CSS Framework'' 90]"
  by (simp add: detectTechnologies_def server_technologies_def nginx_headers_def
      react_tailwind_page_def js_def)

text \<open>
  A page with both words, served by nginx: Nginx, then React, then Tailwind CSS.
\<close>

theorem C5_detection_rule_order_witness:
  "str_includes react_tailwind_page (js ''react'')
   \<and> str_includes react_tailwind_page (js ''tailwind'')
   \<and> subseq (detectTechnologies react_tailwind_page nginx_headers) detection_rules
   \<and> tech ''React'' ''Library'' 80 \<in> set (detectTechnologies react_tailwind_page nginx_headers)
   \<and> detectTechnologies react_tailwind_page nginx_headers =
        [tech ''Nginx'' ''Web Server'' 100, tech ''React'' ''Library'' 80,
         tech ''Tailwind CSS'' ''CSS Framework'' 90]"
  using C5_detection_rule_order [of react_tailwind_page nginx_headers]
    react_tailwind_page_includes detect_react_tailwind_page
  by simp

section \<open>Facts about bulk analysis jobs\<close>

lemma status_written_not_failed_running:
  "status_written s \<Longrightarrow> s \<noteq> js ''failed'' \<and> s \<noteq> js ''running''"
  by (auto simp: status_written_def js_def)

lemma apply_job_op_length: "length tbl \<le> length (apply_job_op op tbl)"
  by (cases op) (simp_all add: createBulkJob_def updateBulkJob_def)

lemma apply_job_op_status:
  assumes "i < length tbl"
  shows "status (apply_job_op op tbl ! i) = status (tbl ! i)
       \<or> status (apply_job_op op tbl ! i) = js ''completed''"
proof (cases op)
  case (Create uid us now)
  then show ?thesis using assms by (simp add: createBulkJob_def nth_append)
next
  case (Update jobId rs now)
  then show ?thesis using assms
    by (cases "i = jobId") (simp_all add: updateBulkJob_def)
qed

lemma apply_job_op_completed:
  assumes "i < length tbl" and "status (tbl ! i) = js ''completed''"
  shows "status (apply_job_op op tbl ! i) = js ''completed''"
  using apply_job_op_status [OF assms(1), of op] assms(2) by auto

lemma apply_job_op_new:
  assumes "length tbl \<le> i" and "i < length (apply_job_op op tbl)"
  shows "status (apply_job_op op tbl ! i) = js ''pending''"
proof (cases op)
  case (Create uid us now)
  then show ?thesis using assms by (simp add: createBulkJob_def nth_append)
next
  case (Update jobId rs now)
  then show ?thesis using assms by (simp add: updateBulkJob_def split: if_splits)
qed

lemma apply_job_op_written:
  assumes "list_all (\<lambda>j. status_written (status j)) tbl"
  shows "list_all (\<lambda>j. status_written (status j)) (apply_job_op op tbl)"
  unfolding list_all_length
proof (intro allI impI)
  fix i assume i: "i < length (apply_job_op op tbl)"
  show "status_written (status (apply_job_op op tbl ! i))"
  proof (cases "i < length tbl")
    case True
    then have "status_written (status (tbl ! i))"
      using assms by (simp add: list_all_length)
    then show ?thesis
      using apply_job_op_status [OF True, of op] by (auto simp: status_written_def)
  next
    case False
    then show ?thesis
      using apply_job_op_new [of tbl i op] i by (simp add: status_written_def)
  qed
qed

lemma fold_job_ops_written:
  "list_all (\<lambda>j. status_written (status j)) tbl \<Longrightarrow>
     list_all (\<lambda>j. status_written (status j)) (fold apply_job_op ops tbl)"
  by (induction ops arbitrary: tbl) (simp_all add: apply_job_op_written)

lemma run_job_ops_written: "list_all (\<lambda>j. status_written (status j)) (run_job_ops ops)"
  unfolding run_job_ops_def by (rule fold_job_ops_written) simp

lemma bulkAnalyzeSites_authenticated:
  "bulkAnalyzeSites (Some uid) us outcome t0 t1 tbl =
     (Inr (length tbl, process_urls outcome 0 us),
      fold apply_job_op
        [Create uid us t0, Update (length tbl) (process_urls outcome 0 us) t1] tbl)"
  by (simp add: bulkAnalyzeSites_def createBulkJob_def updateBulkJob_def Let_def)

lemma bulkAnalyzeSites_status:
  "status (snd (bulkAnalyzeSites (Some uid) us outcome t0 t1 tbl) ! length tbl) = js ''completed''"
  by (simp add: bulkAnalyzeSites_def createBulkJob_def updateBulkJob_def Let_def)

lemma process_urls_all_fail:
  "(\<And>k u. isl (outcome k u)) \<Longrightarrow> list_all (\<lambda>r. \<not> success r) (process_urls outcome k us)"
proof (induction us arbitrary: k)
  case Nil
  then show ?case by simp
next
  case (Cons u us)
  obtain m where "outcome k u = Inl m"
    using Cons.prems [of k u] by (cases "outcome k u") simp_all
  then show ?case using Cons by simp
qed

text \<open>
  Claim C8. After any history of calls of the two mutations, every job has status
  \<open>pending\<close> or \<open>completed\<close>, never \<open>failed\<close> or \<open>running\<close>. A job is created with status
  \<open>pending\<close>; a call leaves the status of an existing job as it was or sets it to
  \<open>completed\<close>, and a completed job stays completed. A run of \<open>bulkAnalyzeSites\<close> by an
  authenticated user is one creation followed by one update, and the job it created ends
  with status \<open>completed\<close> whatever the outcomes, also when every URL fails; without
  authentication nothing is written.
\<close>

theorem C8_job_status_values:
  "(\<forall>j \<in> set (run_job_ops ops).
       (status j = js ''pending'' \<or> status j = js ''completed'')
     \<and> status j \<noteq> js ''failed'' \<and> status j \<noteq> js ''running'')
   \<and> status (snd (createBulkJob tbl uid us t0) ! fst (createBulkJob tbl uid us t0)) = js ''pending''
   \<and> (i < length tbl \<longrightarrow>
         status (apply_job_op op tbl ! i) = status (tbl ! i)
       \<or> status (apply_job_op op tbl ! i) = js ''completed'')
   \<and> (i < length tbl \<and> status (tbl ! i) = js ''completed'' \<longrightarrow>
         status (apply_job_op op tbl ! i) = js ''completed'')
   \<and> bulkAnalyzeSites (Some uid) us outcome t0 t1 tbl =
       (Inr (length tbl, process_urls outcome 0 us),
        fold apply_job_op
          [Create uid us t0, Update (length tbl) (process_urls outcome 0 us) t1] tbl)
   \<and> status (snd (bulkAnalyzeSites (Some uid) us outcome t0 t1 tbl) ! length tbl)
       = js ''completed''
   \<and> ((\<forall>k u. isl (outcome k u)) \<longrightarrow>
         list_all (\<lambda>r. \<not> success r) (process_urls outcome 0 us))
   \<and> bulkAnalyzeSites None us outcome t0 t1 tbl = (Inl AuthenticationRequired, tbl)"
proof (intro conjI ballI impI)
  fix j assume "j \<in> set (run_job_ops ops)"
  then have w: "status_written (status j)"
    using run_job_ops_written [of ops] by (simp add: list_all_iff)
  then show "status j = js ''pending'' \<or> status j = js ''completed''"
    by (simp add: status_written_def)
  show "status j \<noteq> js ''failed''" "status j \<noteq> js ''running''"
    using status_written_not_failed_running [OF w] by simp_all
next
  show "status (snd (createBulkJob tbl uid us t0) ! fst (createBulkJob tbl uid us t0)) = js ''pending''"
    by (simp add: createBulkJob_def)
next
  assume "i < length tbl"
  then show "status (apply_job_op op tbl ! i) = status (tbl ! i)
       \<or> status (apply_job_op op tbl ! i) = js ''completed''"
    by (rule apply_job_op_status)
next
  assume "i < length tbl \<and> status (tbl ! i) = js ''completed''"
  then show "status (apply_job_op op tbl ! i) = js ''completed''"
    using apply_job_op_completed by blast
next
  show "bulkAnalyzeSites (Some uid) us outcome t0 t1 tbl =
       (Inr (length tbl, process_urls outcome 0 us),
        fold apply_job_op
          [Create uid us t0, Update (length tbl) (process_urls outcome 0 us) t1] tbl)"
    by (rule bulkAnalyzeSites_authenticated)
next
  show "status (snd (bulkAnalyzeSites (Some uid) us outcome t0 t1 tbl) ! length tbl)
       = js ''completed''"
    by (rule bulkAnalyzeSites_status)
next
  assume "\<forall>k u. isl (outcome k u)"
  then show "list_all (\<lambda>r. \<not> success r) (process_urls outcome 0 us)"
    using process_urls_all_fail by blast
next
  show "bulkAnalyzeSites None us outcome t0 t1 tbl = (Inl AuthenticationRequired, tbl)"
    by (simp add: bulkAnalyzeSites_def)
qed

lemma run_sample_history:
  "map status (run_job_ops sample_history) = [js ''completed'', js ''pending'']"
  by (simp add: run_job_ops_def sample_history_def createBulkJob_def updateBulkJob_def)

text \<open>
  A history with a failing update in it, and a batch of two URLs that both fail.
\<close>

theorem C8_job_status_values_witness:
  "map status (run_job_ops sample_history) = [js ''completed'', js ''pending'']
   \<and> list_all (\<lambda>j. status j \<noteq> js ''failed'' \<and> status j \<noteq> js ''running'')
        (run_job_ops sample_history)
   \<and> list_all (\<lambda>r. \<not> success r) (process_urls every_url_fails 0 two_urls)
   \<and> status (snd (bulkAnalyzeSites (Some 7) two_urls every_url_fails 1000 3000 []) ! 0)
        = js ''completed''"
proof -
  have f: "\<forall>k u. isl (every_url_fails k u)" by (simp add: every_url_fails_def)
  note c = C8_job_status_values [of sample_history "[]" 7 two_urls 1000 0
      "Create 7 two_urls 1000" every_url_fails 3000]
  have 1: "list_all (\<lambda>j. status j \<noteq> js ''failed'' \<and> status j \<noteq> js ''running'')
        (run_job_ops sample_history)"
    unfolding list_all_iff using c by blast
  have 2: "list_all (\<lambda>r. \<not> success r) (process_urls every_url_fails 0 two_urls)"
    using c f by blast
  have 3: "status (snd (bulkAnalyzeSites (Some 7) two_urls every_url_fails 1000 3000 []) ! 0)
        = js ''completed''"
    using c unfolding list.size(3) by blast
  show ?thesis
    using run_sample_history 1 2 3 by blast
qed

section \<open>Facts about the arithmetic of the estimates\<close>

lemma excess_bits_le: "n < 2 ^ (53 + k) \<Longrightarrow> excess_bits n \<le> k"
proof -
  assume "n < 2 ^ (53 + k)"
  then have "floorlog 2 n \<le> 53 + k" by (simp add: floorlog_le_iff)
  then show ?thesis by (simp add: excess_bits_def)
qed

lemma excess_bits_fits: "n < 2 ^ (53 + excess_bits n)"
proof (cases "n = 0")
  case True
  then show ?thesis by simp
next
  case False
  then have "n < 2 ^ floorlog 2 n" using floorlog_bounds [of n 2] by simp
  also have "(2::nat) ^ floorlog 2 n \<le> 2 ^ (53 + excess_bits n)"
    by (rule power_increasing) (simp_all add: excess_bits_def)
  finally show ?thesis .
qed

lemma round_even_ge_div: "n div 2 ^ s \<le> round_even n s"
  by (simp add: round_even_def Let_def)

lemma round_even_le_Suc_div: "round_even n s \<le> Suc (n div 2 ^ s)"
  by (simp add: round_even_def Let_def)

lemma round_even_lower: "a * 2 ^ s \<le> n \<Longrightarrow> a \<le> round_even n s"
proof -
  assume "a * 2 ^ s \<le> n"
  then have "a \<le> n div 2 ^ s" by (simp add: less_eq_div_iff_mult_less_eq)
  then show ?thesis using round_even_ge_div [of n s] by linarith
qed

lemma round_even_upper:
  assumes "2 * n + 2 ^ s < 2 * (b * 2 ^ s)"
  shows "round_even n s < b"
proof -
  define P :: nat where "P = 2 ^ s"
  define q where "q = n div P"
  define r where "r = n mod P"
  have P: "0 < P" by (simp add: P_def)
  have n: "n = q * P + r" by (simp add: q_def r_def)
  have a: "2 * n + P < 2 * (b * P)" using assms by (simp add: P_def)
  have "n < b * P" using a by linarith
  then have qb: "q < b" unfolding q_def using P by (simp add: div_less_iff_less_mult)
  show ?thesis
  proof (cases "Suc q < b")
    case True
    then show ?thesis using round_even_le_Suc_div [of n s] by (simp add: q_def P_def)
  next
    case False
    then have "b = Suc q" using qb by linarith
    then have "2 * (q * P + r) + P < 2 * (Suc q * P)" using a n by simp
    then have "2 * r < P" by simp
    then have "round_even n s = q"
      by (simp add: round_even_def Let_def q_def r_def P_def)
    then show ?thesis using qb by simp
  qed
qed

lemma round_even_exact_above:
  assumes "n = a * 2 ^ s + d" and "2 * d < 2 ^ s"
  shows "round_even n s = a"
proof -
  have d: "d < 2 ^ s" using assms(2) by linarith
  have "n div 2 ^ s = a" using assms(1) d by simp
  moreover have "n mod 2 ^ s = d" using assms(1) d by simp
  ultimately show ?thesis using assms(2) by (simp add: round_even_def Let_def)
qed

lemma round_even_exact_below:
  assumes "n + d = a * 2 ^ s" and "2 * d < 2 ^ s"
  shows "round_even n s = a"
proof (cases "d = 0")
  case True
  then show ?thesis using round_even_exact_above [of n a s 0] assms by simp
next
  case False
  define P :: nat where "P = 2 ^ s"
  have dP: "d < P" "2 * d < P" using assms(2) by (simp_all add: P_def)
  have "0 < a" using assms(1) False by (cases a) simp_all
  then obtain a' where a': "a = Suc a'" by (cases a) simp_all
  have n: "n = a' * P + (P - d)" using assms(1) dP unfolding a' P_def [symmetric] by simp
  have r: "P - d < P" using False dP by simp
  have "n div P = a'" using n r by simp
  moreover have "n mod P = P - d" using n r by simp
  moreover have "P < 2 * (P - d)" using dP by linarith
  ultimately show ?thesis by (simp add: round_even_def Let_def P_def [symmetric] a')
qed

lemma math_floor_negative_expo:
  "s \<le> e \<Longrightarrow> math_floor \<lparr>mant = q, expo = - int e + int s\<rparr> = q div 2 ^ (e - s)"
  by (cases "s = e") (simp_all add: math_floor_def nat_diff_distrib')

lemma floor_round_bracket:
  assumes "s \<le> e" and "K * 2 ^ e \<le> n" and "2 * n + 2 ^ s < 2 * (Suc K * 2 ^ e)"
  shows "round_even n s div 2 ^ (e - s) = K"
proof -
  have pe: "(2::nat) ^ e = 2 ^ (e - s) * 2 ^ s"
    using assms(1) by (simp add: power_add [symmetric])
  have "(K * 2 ^ (e - s)) * 2 ^ s \<le> n" using assms(2) by (simp add: pe mult.assoc)
  then have lo: "K * 2 ^ (e - s) \<le> round_even n s" by (rule round_even_lower)
  have "2 * n + 2 ^ s < 2 * ((Suc K * 2 ^ (e - s)) * 2 ^ s)"
    using assms(3) unfolding pe by (simp add: algebra_simps)
  then have hi: "round_even n s < Suc K * 2 ^ (e - s)" by (rule round_even_upper)
  show ?thesis
    by (rule div_nat_eqI) (use lo hi in \<open>simp_all add: mult.commute\<close>)
qed

lemma floor_round_exact_below:
  assumes "s \<le> e" and "n + d = K * 2 ^ e" and "2 * d < 2 ^ s"
  shows "round_even n s div 2 ^ (e - s) = K"
proof -
  have pe: "(2::nat) ^ e = 2 ^ (e - s) * 2 ^ s"
    using assms(1) by (simp add: power_add [symmetric])
  have "n + d = (K * 2 ^ (e - s)) * 2 ^ s" using assms(2) by (simp add: pe mult.assoc)
  then have "round_even n s = K * 2 ^ (e - s)" using assms(3) by (rule round_even_exact_below)
  then show ?thesis by simp
qed

lemma floor_round_exact_above:
  assumes "s \<le> e" and "n = K * 2 ^ e + d" and "2 * d < 2 ^ s"
  shows "round_even n s div 2 ^ (e - s) = K"
proof -
  have pe: "(2::nat) ^ e = 2 ^ (e - s) * 2 ^ s"
    using assms(1) by (simp add: power_add [symmetric])
  have "n = (K * 2 ^ (e - s)) * 2 ^ s + d" using assms(2) by (simp add: pe mult.assoc)
  then have "round_even n s = K * 2 ^ (e - s)" using assms(3) by (rule round_even_exact_above)
  then show ?thesis by simp
qed

lemma ttfb_value:
  "ttfb (analyzePerformance html hs t) =
     math_floor \<lparr>mant = round_even (t * 5404319552844595) (excess_bits (t * 5404319552844595)),
                 expo = - int 54 + int (excess_bits (t * 5404319552844595))\<rparr>"
  by (simp add: analyzePerformance_def double_mul_def double_of_nat_def lit_0_3_def Let_def)

lemma domContentLoaded_value:
  "domContentLoaded (analyzePerformance html hs t) =
     math_floor \<lparr>mant = round_even (t * 7205759403792794) (excess_bits (t * 7205759403792794)),
                 expo = - int 53 + int (excess_bits (t * 7205759403792794))\<rparr>"
  by (simp add: analyzePerformance_def double_mul_def double_of_nat_def lit_0_8_def Let_def)

lemma ttfb_exact:
  assumes t: "t < 3 * 2 ^ 49"
  shows "ttfb (analyzePerformance html hs t) = 3 * t div 10"
proof -
  define n where "n = t * 5404319552844595"
  define s where "s = excess_bits n"
  define K where "K = 3 * t div 10"
  define r where "r = 3 * t mod 10"
  have tb: "t < 1688849860263936" using t by simp
  have n10: "10 * n + 2 * t = 3 * t * 2 ^ 54" by (simp add: n_def)
  have Kr: "3 * t = 10 * K + r" and r9: "r < 10" by (simp_all add: K_def r_def)
  have "n < 2 ^ (53 + 50)" using tb by (simp add: n_def)
  then have s50: "s \<le> 50" unfolding s_def by (rule excess_bits_le)
  then have s54: "s \<le> 54" by simp
  have "(2::nat) ^ s \<le> 2 ^ 50" using s50 by (rule power_increasing) simp
  then have P50: "(2::nat) ^ s \<le> 1125899906842624" by simp
  have fits: "n < 2 ^ 53 * 2 ^ s"
    using excess_bits_fits [of n] by (simp add: s_def power_add)
  have "round_even n s div 2 ^ (54 - s) = K"
  proof (cases "r = 0")
    case True
    have "5 dvd t"
    proof -
      have "10 dvd 3 * t" using Kr True by simp
      then have "5 dvd 3 * t" by presburger
      then show ?thesis by presburger
    qed
    then obtain d where d: "t = 5 * d" by (auto simp: dvd_def)
    have nd: "n + d = K * 2 ^ 54" using n10 Kr True d by simp
    have "2 * d < 2 ^ s" using nd fits Kr True d by simp
    with s54 nd show ?thesis by (rule floor_round_exact_below)
  next
    case False
    have lo: "K * 2 ^ 54 \<le> n" using n10 Kr False tb by simp
    have hi: "2 * n + 2 ^ s < 2 * (Suc K * 2 ^ 54)" using n10 Kr r9 P50 by simp
    from s54 lo hi show ?thesis by (rule floor_round_bracket)
  qed
  then show ?thesis
    unfolding ttfb_value n_def [symmetric] s_def [symmetric]
    using math_floor_negative_expo [OF s54] by (simp add: K_def)
qed

lemma domContentLoaded_exact:
  assumes t: "t < 3 * 2 ^ 49"
  shows "domContentLoaded (analyzePerformance html hs t) = 8 * t div 10"
proof -
  define n where "n = t * 7205759403792794"
  define s where "s = excess_bits n"
  define K where "K = 8 * t div 10"
  define r where "r = 8 * t mod 10"
  have tb: "t < 1688849860263936" using t by simp
  have n10: "10 * n = 8 * t * 2 ^ 53 + 4 * t" by (simp add: n_def)
  have Kr: "8 * t = 10 * K + r"
    unfolding K_def r_def by (rule mult_div_mod_eq [symmetric])
  have r8: "r \<le> 8" unfolding r_def by presburger
  have "n < 2 ^ (53 + 51)" using tb by (simp add: n_def)
  then have s51: "s \<le> 51" unfolding s_def by (rule excess_bits_le)
  then have s53: "s \<le> 53" by simp
  have "(2::nat) ^ s \<le> 2 ^ 51" using s51 by (rule power_increasing) simp
  then have P51: "(2::nat) ^ s \<le> 2251799813685248" by simp
  have fits: "n < 2 ^ 53 * 2 ^ s"
    using excess_bits_fits [of n] by (simp add: s_def power_add)
  have "round_even n s div 2 ^ (53 - s) = K"
  proof (cases "r = 0")
    case True
    have "5 dvd t"
    proof -
      have "10 dvd 8 * t" using Kr True by simp
      then show ?thesis by presburger
    qed
    then obtain d where d: "t = 5 * d" by (auto simp: dvd_def)
    have nd: "n = K * 2 ^ 53 + 2 * d" using n10 Kr True d by simp
    have "2 * (2 * d) < 2 ^ s" using nd fits Kr True d by simp
    with s53 nd show ?thesis by (rule floor_round_exact_above)
  next
    case False
    have lo: "K * 2 ^ 53 \<le> n" using n10 Kr by simp
    have hi: "2 * n + 2 ^ s < 2 * (Suc K * 2 ^ 53)" using n10 Kr r8 P51 tb by simp
    from s53 lo hi show ?thesis by (rule floor_round_bracket)
  qed
  then show ?thesis
    unfolding domContentLoaded_value n_def [symmetric] s_def [symmetric]
    using math_floor_negative_expo [OF s53] by (simp add: K_def)
qed

section \<open>Facts about the resource count\<close>

lemma lit_rest_case_sensitive:
  "lit_rest False w s = (if prefix w s then Some (drop (length w) s) else None)"
  by (induction False w s rule: lit_rest.induct) (simp_all add: canonicalize_def)

lemma matched_text_of_prefix:
  assumes "prefix w cs"
  shows "take (Suc (length cs) - (length cs - length w)) (c # cs) = c # w"
proof -
  obtain z where "cs = w @ z" using assms by (auto simp: prefix_def)
  then show ?thesis by simp
qed

lemma match_at_resource_Nil: "match_at False resource_re [] = None"
  by (simp add: match_at_def resource_re_def)

lemma match_at_resource_Cons:
  "match_at False resource_re (c # cs) =
     (if c = chr_lt \<and> prefix (js ''script'') cs then Some (chr_lt # js ''script'')
      else if c = chr_lt \<and> prefix (js ''link'') cs then Some (chr_lt # js ''link'')
      else if c = chr_lt \<and> prefix (js ''img'') cs then Some (chr_lt # js ''img'')
      else None)"
  by (simp add: match_at_def resource_re_def lit_rest_case_sensitive canonicalize_def
      matched_text_of_prefix)

lemma occurrences_skip:
  "x \<noteq> c \<Longrightarrow> occurrences (c # w) (x # s) = occurrences (c # w) s"
  by simp

lemma occurrences_drop:
  "prefix w s \<Longrightarrow> c \<notin> set w \<Longrightarrow> occurrences (c # v) s = occurrences (c # v) (drop (length w) s)"
proof (induction w arbitrary: s)
  case Nil
  then show ?case by simp
next
  case (Cons x w)
  then obtain s' where s: "s = x # s'" and p: "prefix w s'"
    by (cases s) simp_all
  have "x \<noteq> c" using Cons.prems(2) by auto
  then have "occurrences (c # v) s = occurrences (c # v) s'"
    unfolding s by (rule occurrences_skip)
  also have "\<dots> = occurrences (c # v) (drop (length w) s')"
    using Cons.IH [OF p] Cons.prems(2) by simp
  finally show ?case by (simp add: s)
qed

lemma resource_words:
  "js ''<script'' = chr_lt # js ''script''"
  "js ''<link'' = chr_lt # js ''link''"
  "js ''<img'' = chr_lt # js ''img''"
  "chr_lt \<notin> set (js ''script'')" "chr_lt \<notin> set (js ''link'')" "chr_lt \<notin> set (js ''img'')"
  by (simp_all add: js_def chr_lt_def)

lemma resource_words_exclusive:
  "prefix (js ''script'') cs \<Longrightarrow> \<not> prefix (js ''link'') cs \<and> \<not> prefix (js ''img'') cs"
  "prefix (js ''link'') cs \<Longrightarrow> \<not> prefix (js ''img'') cs"
  by (cases cs; simp add: js_def)+

lemma resource_occurrences_drop:
  "prefix w s \<Longrightarrow> chr_lt \<notin> set w \<Longrightarrow>
     resource_occurrences (drop (length w) s) = resource_occurrences s"
  unfolding resource_occurrences_def resource_words
  using occurrences_drop [of w s chr_lt] by simp

lemma resource_occurrences_Nil: "resource_occurrences [] = 0"
  by (simp add: resource_occurrences_def js_def)

lemma resource_occurrences_Cons:
  "resource_occurrences (c # cs) =
     (if c = chr_lt \<and> (prefix (js ''script'') cs \<or> prefix (js ''link'') cs \<or> prefix (js ''img'') cs)
      then 1 else 0) + resource_occurrences cs"
  unfolding resource_occurrences_def resource_words
  using resource_words_exclusive [of cs] by auto

lemma resource_count:
  "length (match_all False resource_re html) = resource_occurrences html"
proof (induction "length html" arbitrary: html rule: less_induct)
  case less
  show ?case
  proof (cases html)
    case Nil
    then show ?thesis by (simp add: match_at_resource_Nil resource_occurrences_Nil)
  next
    case (Cons c cs)
    have step: "length (match_all False resource_re (drop (length w) cs))
                  = resource_occurrences cs"
      if "prefix w cs" "chr_lt \<notin> set w" for w
    proof -
      have "length (drop (length w) cs) < length html" by (simp add: Cons)
      then have "length (match_all False resource_re (drop (length w) cs))
                   = resource_occurrences (drop (length w) cs)"
        by (rule less)
      then show ?thesis using resource_occurrences_drop [OF that] by simp
    qed
    have rest: "length (match_all False resource_re cs) = resource_occurrences cs"
      by (rule less) (simp add: Cons)
    consider (script) "c = chr_lt" "prefix (js ''script'') cs"
      | (link) "c = chr_lt" "\<not> prefix (js ''script'') cs" "prefix (js ''link'') cs"
      | (img) "c = chr_lt" "\<not> prefix (js ''script'') cs" "\<not> prefix (js ''link'') cs"
          "prefix (js ''img'') cs"
      | (none) "\<not> (c = chr_lt \<and> (prefix (js ''script'') cs \<or> prefix (js ''link'') cs
                  \<or> prefix (js ''img'') cs))"
      by blast
    then show ?thesis
    proof cases
      case script
      then show ?thesis
        unfolding Cons
        using step [of "js ''script''"] resource_words
        by (simp add: match_at_resource_Cons resource_occurrences_Cons)
    next
      case link
      then show ?thesis
        unfolding Cons
        using step [of "js ''link''"] resource_words
        by (simp add: match_at_resource_Cons resource_occurrences_Cons)
    next
      case img
      then show ?thesis
        unfolding Cons
        using step [of "js ''img''"] resource_words
        by (simp add: match_at_resource_Cons resource_occurrences_Cons)
    next
      case none
      then show ?thesis
        unfolding Cons using rest
        by (auto simp: match_at_resource_Cons resource_occurrences_Cons)
    qed
  qed
qed

section \<open>Facts about the performance estimator\<close>

lemma pageSize_value: "pageSize (analyzePerformance html hs t) = length (utf8_encode html)"
  by (simp add: analyzePerformance_def blob_size_def)

lemma resourceCount_value:
  "resourceCount (analyzePerformance html hs t) = resource_occurrences html"
  by (simp add: analyzePerformance_def resource_count)

text \<open>
  Claim C4, as the code has it. The two estimates are computed in double precision:
  \<open>Math.floor(loadTime * 0.3)\<close> and \<open>Math.floor(loadTime * 0.8)\<close>. For every HTML string
  and every elapsed time below \<open>3 * 2^49\<close> milliseconds they are the integer parts of
  three tenths and of eight tenths of the elapsed time; the page size is the length of
  the UTF-8 encoding of the HTML; the resource count is the number of positions at which
  \<open><script\<close>, \<open><link\<close> or \<open><img\<close> starts, letter case as written.
\<close>

theorem C4_performance_estimates:
  assumes "t < 3 * 2 ^ 49"
  shows "ttfb (analyzePerformance html hs t) = 3 * t div 10
       \<and> domContentLoaded (analyzePerformance html hs t) = 8 * t div 10
       \<and> pageSize (analyzePerformance html hs t) = length (utf8_encode html)
       \<and> resourceCount (analyzePerformance html hs t) =
           occurrences (js ''<script'') html + occurrences (js ''<link'') html
             + occurrences (js ''<img'') html"
  using ttfb_exact [OF assms] domContentLoaded_exact [OF assms]
  by (simp only: pageSize_value resourceCount_value resource_occurrences_def simp_thms)

lemma utf8_resource_page: "length (utf8_encode resource_page) = 26"
  by (simp add: resource_page_def js_def utf8_encode_def utf8_bytes_def is_high_surrogate_def
      is_low_surrogate_def)

lemma occurrences_resource_page:
  "occurrences (js ''<script'') resource_page + occurrences (js ''<link'') resource_page
     + occurrences (js ''<img'') resource_page = 3"
  by (simp add: resource_page_def js_def)

text \<open>
  One second of elapsed time: 300 and 800; a page of 26 bytes with three resources.
\<close>

theorem C4_performance_estimates_witness:
  "(1000::nat) < 3 * 2 ^ 49
   \<and> ttfb (analyzePerformance resource_page Map.empty 1000) = 300
   \<and> domContentLoaded (analyzePerformance resource_page Map.empty 1000) = 800
   \<and> pageSize (analyzePerformance resource_page Map.empty 1000) = 26
   \<and> resourceCount (analyzePerformance resource_page Map.empty 1000) = 3"
proof -
  have b: "(1000::nat) < 3 * 2 ^ 49" by simp
  show ?thesis
    using C4_performance_estimates [OF b, of resource_page Map.empty]
      utf8_resource_page occurrences_resource_page
    by simp
qed

lemma excess_bits_large: "excess_bits 12169445762191002929908294877184 = 51"
proof -
  have "floorlog 2 12169445762191002929908294877184 \<le> 104"
    by (rule floorlog_leI) simp_all
  moreover have "104 \<le> floorlog 2 12169445762191002929908294877184"
    by (rule floorlog_geI) simp_all
  ultimately show ?thesis by (simp add: excess_bits_def)
qed

text \<open>
  Claim C4 as stated covers every non-negative integer. At \<open>3 * 2^49\<close> milliseconds the
  rounding of the product turns the estimate of the DOM-ready time into one more than
  the integer part of eight tenths of the elapsed time.
\<close>

theorem C4_large_elapsed_counterexample:
  "domContentLoaded (analyzePerformance [] Map.empty 1688849860263936) = 1351079888211149
   \<and> 8 * 1688849860263936 div 10 = (1351079888211148::nat)
   \<and> (1688849860263936::nat) = 3 * 2 ^ 49"
  by (simp add: domContentLoaded_value excess_bits_large round_even_def math_floor_def Let_def)

end
